theory Spec2Isabelle
  imports Complex_Main
begin

section \<open>Values that travel between the documents and the gateway\<close>

text \<open>
  \<^verbatim>\<open>etl.py\<close> reads JSON documents with \<^verbatim>\<open>pd.read_json\<close> and hands cell values to
  \<^verbatim>\<open>cur.execute\<close>. The model starts at the frame \<^verbatim>\<open>pd.read_json\<close> returns: a cell is
  what the frame holds, and what the parser made of the text of the document is not
  modelled. A cell is a missing value (\<^verbatim>\<open>None\<close>/\<^verbatim>\<open>NaN\<close>), a number (stood for by the
  rational it denotes), a string, or a naive date-time (a wall clock reading without a
  zone, which is what both \<^verbatim>\<open>pd.Timestamp\<close> built with \<^verbatim>\<open>unit="ms"\<close> and
  \<^verbatim>\<open>datetime.fromtimestamp\<close> produce).
\<close>

record datetime =
  dt_year :: int
  dt_month :: int
  dt_day :: int
  dt_hour :: int
  dt_minute :: int
  dt_second :: int
  dt_microsecond :: int

datatype val = Null | Num rat | Str string | Time datetime

section \<open>The proleptic Gregorian calendar of the library calls\<close>

text \<open>
  \<^verbatim>\<open>pd.to_datetime(.., unit="ms")\<close>, the \<^verbatim>\<open>.dt\<close> accessors and \<^verbatim>\<open>datetime.fromtimestamp\<close>
  are library calls. Their values are computed here from the day number (days since
  1970-01-01) the way the libraries do it: whole 400, 100, 4 and 1 year cycles counted
  from 2000-01-01, then a walk along the table of month lengths.
\<close>

definition is_leapyear :: "int \<Rightarrow> bool" where
  "is_leapyear y = (y mod 4 = 0 \<and> (y mod 100 \<noteq> 0 \<or> y mod 400 = 0))"

definition days_to_yearsdays :: "int \<Rightarrow> int \<times> int" where
  "days_to_yearsdays days0 =
     (let days = days0 - (365 * 30 + 7);
          year = 400 * (days div 146097);
          days = days mod 146097
      in if days \<ge> 366 then
           (let year = year + 100 * ((days - 1) div 36524);
                days = (days - 1) mod 36524
            in if days \<ge> 365 then
                 (let year = year + 4 * ((days + 1) div 1461);
                      days = (days + 1) mod 1461
                  in if days \<ge> 366 then (year + (days - 1) div 365 + 2000, (days - 1) mod 365)
                     else (year + 2000, days))
               else (year + 2000, days))
         else (year + 2000, days))"

definition month_lengths :: "int \<Rightarrow> int list" where
  "month_lengths y =
     [31, if is_leapyear y then 29 else 28, 31, 30, 31, 30, 31, 31, 30, 31, 30, 31]"

fun month_and_day :: "int list \<Rightarrow> int \<Rightarrow> int \<Rightarrow> int \<times> int" where
  "month_and_day [] i days = (i, days + 1)"
| "month_and_day (l # ls) i days =
     (if days < l then (i, days + 1) else month_and_day ls (i + 1) (days - l))"

definition civil_from_days :: "int \<Rightarrow> int \<times> int \<times> int" where
  "civil_from_days days =
     (let (y, yd) = days_to_yearsdays days;
          (m, d) = month_and_day (month_lengths y) 1 yd
      in (y, m, d))"

text \<open>Monday is 0. Day number 0, 1970-01-01, was a Thursday.\<close>

definition dayofweek :: "int \<Rightarrow> int" where
  "dayofweek days = (days + 3) mod 7"

definition day_of_year :: "int \<Rightarrow> int" where
  "day_of_year days = snd (days_to_yearsdays days) + 1"

text \<open>
  The ISO 8601 week number as \<^verbatim>\<open>isocalendar()\<close> computes it: an estimate from the day of
  the year and the weekday, corrected at both ends of the year.
\<close>

definition iso_week :: "int \<Rightarrow> int" where
  "iso_week days =
     (let (y, m, d) = civil_from_days days;
          doy = day_of_year days;
          dow = dayofweek days;
          w = (doy - 1) - dow + 3
      in if w < 0 then
           (if w > - 2 \<or> (w = - 2 \<and> is_leapyear (y - 1)) then 53 else 52)
         else if w div 7 + 1 = 53 \<and> 31 - d + dow < 3 then 1
         else w div 7 + 1)"

definition iso_weekday :: "int \<Rightarrow> int" where
  "iso_weekday days = dayofweek days + 1"

text \<open>The wall clock reading of an instant given in milliseconds, read in UTC.\<close>

definition utc_datetime :: "int \<Rightarrow> datetime" where
  "utc_datetime ms =
     (let days = ms div 86400000;
          r = ms mod 86400000;
          (y, m, d) = civil_from_days days
      in \<lparr> dt_year = y, dt_month = m, dt_day = d,
           dt_hour = r div 3600000,
           dt_minute = (r mod 3600000) div 60000,
           dt_second = (r mod 60000) div 1000,
           dt_microsecond = (r mod 1000) * 1000 \<rparr>)"

section \<open>Timestamps as the source derives them\<close>

datatype error = ParseError | KeyError | OutOfBoundsDatetime | PersistenceError

text \<open>
  \<^verbatim>\<open>pd.to_datetime(df["ts"], unit="ms")\<close> (line 52): every value of the column becomes a
  naive UTC wall clock reading. The library stores nanoseconds in 64 bits and raises for
  a value whose nanosecond count does not fit.
\<close>

definition in_bounds :: "int \<Rightarrow> bool" where
  "in_bounds ms = (- 9223372036854 \<le> ms \<and> ms \<le> 9223372036854)"

definition to_datetime :: "int list \<Rightarrow> error + int list" where
  "to_datetime tss = (if list_all in_bounds tss then Inr tss else Inl OutOfBoundsDatetime)"

text \<open>
  Line 55 to 57: the seven columns of \<^verbatim>\<open>time_df\<close> for one timestamp, in the order of
  \<^verbatim>\<open>column_labels\<close>: start_time, hour, day, week, month, year, weekday.
\<close>

definition time_data :: "int \<Rightarrow> val list" where
  "time_data ms =
     (let t = utc_datetime ms; days = ms div 86400000
      in [Time t, Num (of_int (dt_hour t)), Num (of_int (dt_day t)),
          Num (of_int (iso_week days)), Num (of_int (dt_month t)),
          Num (of_int (dt_year t)), Num (of_int (iso_weekday days))])"

text \<open>
  \<^verbatim>\<open>datetime.fromtimestamp(row.ts / 1000)\<close> (line 83) is called without a zone, so it
  returns the wall clock reading of the machine's local zone. \<open>utcoffset\<close> is that zone:
  the number of seconds local time is ahead of UTC at a given second since the epoch.
  \<^verbatim>\<open>row.ts / 1000\<close> is a double; for the timestamps \<open>in_bounds\<close> admits up to the year
  2242 it lies within half a microsecond of the exact quotient, so the rounding to
  microseconds returns the exact value, which is what is written here.
\<close>

definition fromtimestamp :: "(int \<Rightarrow> int) \<Rightarrow> int \<Rightarrow> datetime" where
  "fromtimestamp off ms = utc_datetime (ms + 1000 * off (ms div 1000))"

section \<open>The directory tree and the discovery of files\<close>

text \<open>
  The directory tree below the working directory. \<open>NoAccess\<close> is a directory that
  cannot be listed. A path is the list of its components, relative to the working
  directory; component names hold no separator and are neither \<^verbatim>\<open>.\<close> nor \<^verbatim>\<open>..\<close>.
\<close>

datatype node = File | Dir "(string \<times> node) list" | NoAccess

fun is_dir :: "node \<Rightarrow> bool" where
  "is_dir File = False"
| "is_dir (Dir es) = True"
| "is_dir NoAccess = True"

fun resolve :: "node \<Rightarrow> string list \<Rightarrow> node option" where
  "resolve n [] = Some n"
| "resolve (Dir es) (c # cs) = (case map_of es c of None \<Rightarrow> None | Some n \<Rightarrow> resolve n cs)"
| "resolve File (c # cs) = None"
| "resolve NoAccess (c # cs) = None"

text \<open>
  \<^verbatim>\<open>os.walk(top)\<close> with its default arguments, top down: the roots it yields. An error
  of the listing call is ignored by default (\<^verbatim>\<open>onerror=None\<close>), so a missing path, a
  file and a directory that cannot be listed all yield nothing.
\<close>

fun walk_node :: "node \<Rightarrow> string list \<Rightarrow> string list list" where
  "walk_node (Dir es) p =
     p # concat (map (\<lambda>e. if is_dir (snd e) then walk_node (snd e) (p @ [fst e]) else []) es)"
| "walk_node File p = []"
| "walk_node NoAccess p = []"

definition os_walk :: "node \<Rightarrow> string list \<Rightarrow> string list list" where
  "os_walk tree p = (case resolve tree p of None \<Rightarrow> [] | Some n \<Rightarrow> walk_node n p)"

text \<open>
  \<^verbatim>\<open>glob.glob(os.path.join(root, "*.json"))\<close> (line 108). The pattern \<^verbatim>\<open>*.json\<close> selects
  the entries of the directory whose name ends in \<^verbatim>\<open>.json\<close> and does not start with a
  dot; the kind of the entry is not looked at. When a component of the directory path itself holds
  one of the characters \<^verbatim>\<open>*\<close>, \<^verbatim>\<open>?\<close>, \<^verbatim>\<open>[\<close>, the library reads it as a pattern too; what
  it then returns is the parameter \<open>glob_magic\<close>.
\<close>

definition has_magic :: "string \<Rightarrow> bool" where
  "has_magic s = list_ex (\<lambda>c. c = CHR ''*'' \<or> c = CHR ''?'' \<or> c = CHR ''['') s"

definition ishidden :: "string \<Rightarrow> bool" where
  "ishidden s = (case s of [] \<Rightarrow> False | c # cs \<Rightarrow> c = CHR ''.'')"

definition json_name :: "string \<Rightarrow> bool" where
  "json_name s = (length s \<ge> 5 \<and> drop (length s - 5) s = ''.json'')"

definition listdir :: "node \<Rightarrow> string list \<Rightarrow> string list" where
  "listdir tree p = (case resolve tree p of Some (Dir es) \<Rightarrow> map fst es | _ \<Rightarrow> [])"

definition glob_json :: "(string list \<Rightarrow> string list list) \<Rightarrow> node \<Rightarrow> string list \<Rightarrow> string list list" where
  "glob_json glob_magic tree d =
     (if list_ex has_magic d then glob_magic d
      else map (\<lambda>n. d @ [n]) (filter (\<lambda>n. json_name n \<and> \<not> ishidden n) (listdir tree d)))"

text \<open>Lines 106 to 110 of \<^verbatim>\<open>process_data\<close>: the list \<^verbatim>\<open>all_files\<close>.\<close>

definition all_files :: "(string list \<Rightarrow> string list list) \<Rightarrow> string list \<Rightarrow> node \<Rightarrow> string list \<Rightarrow> string list list" where
  "all_files glob_magic cwd tree folder_path =
     concat (map (\<lambda>d. map (\<lambda>f. cwd @ f) (glob_json glob_magic tree d))
                 (os_walk tree folder_path))"

section \<open>Documents, the gateway and the cursor\<close>

text \<open>
  One record of a song file and one line of a log file, with the fields the source
  reads. \<open>song_length\<close> is the field \<^verbatim>\<open>length\<close>. \<open>ts\<close> is an integer count of milliseconds;
  every other field is a cell.
\<close>

record song_record =
  song_id :: val
  title :: val
  artist_id :: val
  year :: val
  duration :: val
  artist_name :: val
  artist_location :: val
  artist_latitude :: val
  artist_longitude :: val

record event =
  page :: val
  ts :: int
  userId :: val
  firstName :: val
  lastName :: val
  gender :: val
  level :: val
  song :: val
  artist :: val
  song_length :: val
  sessionId :: val
  location :: val
  userAgent :: val

text \<open>The six statements imported from \<^verbatim>\<open>sql_queries\<close> (lines 10 to 12).\<close>

datatype stmt =
  song_table_insert | artist_table_insert | time_table_insert
  | user_table_insert | songplay_table_insert | song_select

text \<open>The calls the program makes on the cursor and on the connection.\<close>

datatype call = Execute stmt "val list" | Fetchone | Commit

text \<open>The rows of the two tables the lookup reads.\<close>

record song_row =
  s_song_id :: val
  s_title :: val
  s_artist_id :: val
  s_year :: val
  s_duration :: val

record artist_row =
  a_artist_id :: val
  a_name :: val
  a_location :: val
  a_latitude :: val
  a_longitude :: val

record database =
  songs :: "song_row list"
  artists :: "artist_row list"

text \<open>
  What the program runs in. The text of the statements and the database behind them
  are not part of \<^verbatim>\<open>etl.py\<close>, so they are parameters:
  \<^item> \<open>read_song_json\<close>, \<open>read_log_json\<close>: \<^verbatim>\<open>pd.read_json(filepath, lines=True)\<close> on a
    song file and on a log file: the records of the document, or the error raised;
  \<^item> \<open>gw_run\<close>: what the gateway does with a statement and its parameters, given the
    calls it has received so far and the two tables: the tables afterwards, or the
    error it raises;
  \<^item> \<open>gw_select\<close>: the rows, each a pair of columns, that \<^verbatim>\<open>song_select\<close> returns for the
    three parameters of line 73;
  \<^item> \<open>gw_commit\<close>: \<^verbatim>\<open>conn.commit()\<close>;
  \<^item> \<open>utcoffset\<close>: the local zone of the machine (see \<open>fromtimestamp\<close>);
  \<^item> \<open>cwd\<close>, \<open>tree\<close>, \<open>glob_magic\<close>: the working directory, the directory tree below
    it, and the expansion of a directory path that holds pattern characters.
\<close>

record env =
  read_song_json :: "string list \<Rightarrow> error + song_record list"
  read_log_json :: "string list \<Rightarrow> error + event list"
  gw_run :: "call list \<Rightarrow> stmt \<Rightarrow> val list \<Rightarrow> database \<Rightarrow> error + database"
  gw_select :: "database \<Rightarrow> val \<Rightarrow> val \<Rightarrow> val \<Rightarrow> (val \<times> val) list"
  gw_commit :: "call list \<Rightarrow> database \<Rightarrow> error + database"
  utcoffset :: "int \<Rightarrow> int"
  cwd :: "string list"
  tree :: node
  glob_magic :: "string list \<Rightarrow> string list list"

text \<open>
  The cursor together with its connection: the two tables, the rows of the last query
  that are not fetched yet, and \<open>trace\<close>, the calls made so far in the order they were
  made (a call that raised is the last one of the trace).
\<close>

record cursor =
  db :: database
  results :: "(val \<times> val) list"
  trace :: "call list"

text \<open>
  An exception ends the function that raised it and every caller, since the source has
  no handler: a step returns the error, if any, with the cursor as it was left, and
  \<open>and_then\<close> runs the next step only after a step that returned normally.
\<close>

definition and_then ::
  "error option \<times> cursor \<Rightarrow> (cursor \<Rightarrow> error option \<times> cursor) \<Rightarrow> error option \<times> cursor" where
  "and_then r f = (case r of (Some e, c) \<Rightarrow> (Some e, c) | (None, c) \<Rightarrow> f c)"

fun for_each ::
  "('a \<Rightarrow> cursor \<Rightarrow> error option \<times> cursor) \<Rightarrow> 'a list \<Rightarrow> cursor \<Rightarrow> error option \<times> cursor" where
  "for_each body [] cur = (None, cur)"
| "for_each body (x # xs) cur = and_then (body x cur) (for_each body xs)"

text \<open>\<^verbatim>\<open>cur.execute(statement, parameters)\<close>.\<close>

definition execute :: "env \<Rightarrow> stmt \<Rightarrow> val list \<Rightarrow> cursor \<Rightarrow> error option \<times> cursor" where
  "execute env s ps cur =
     (let cur1 = cur\<lparr>trace := trace cur @ [Execute s ps]\<rparr>
      in case gw_run env (trace cur) s ps (db cur) of
           Inl e \<Rightarrow> (Some e, cur1)
         | Inr d \<Rightarrow>
             (None, cur1\<lparr>db := d,
                results := (if s = song_select
                            then (case ps of [t, n, l] \<Rightarrow> gw_select env (db cur) t n l | _ \<Rightarrow> [])
                            else [])\<rparr>))"

text \<open>\<^verbatim>\<open>cur.fetchone()\<close>: the next row of the last query, or \<^verbatim>\<open>None\<close> when there is none.\<close>

definition fetchone :: "cursor \<Rightarrow> (val \<times> val) option \<times> cursor" where
  "fetchone cur =
     (let cur1 = cur\<lparr>trace := trace cur @ [Fetchone]\<rparr>
      in case results cur of
           [] \<Rightarrow> (None, cur1)
         | r # rs \<Rightarrow> (Some r, cur1\<lparr>results := rs\<rparr>))"

text \<open>\<^verbatim>\<open>conn.commit()\<close>.\<close>

definition commit :: "env \<Rightarrow> cursor \<Rightarrow> error option \<times> cursor" where
  "commit env cur =
     (let cur1 = cur\<lparr>trace := trace cur @ [Commit]\<rparr>
      in case gw_commit env (trace cur) (db cur) of
           Inl e \<Rightarrow> (Some e, cur1)
         | Inr d \<Rightarrow> (None, cur1\<lparr>db := d, results := []\<rparr>))"

section \<open>The extractors\<close>

text \<open>
  \<^verbatim>\<open>process_song_file\<close>, lines 27 to 34, on the records \<open>df\<close> that line 24 has read. A
  document without a record gives a frame without columns, and selecting the five
  columns raises \<^verbatim>\<open>KeyError\<close>. \<^verbatim>\<open>.values[0]\<close> is the first record.
\<close>

definition song_data :: "song_record \<Rightarrow> val list" where
  "song_data r = [song_id r, title r, artist_id r, year r, duration r]"

definition artist_data :: "song_record \<Rightarrow> val list" where
  "artist_data r =
     [artist_id r, artist_name r, artist_location r, artist_latitude r, artist_longitude r]"

definition process_song_frame :: "env \<Rightarrow> cursor \<Rightarrow> song_record list \<Rightarrow> error option \<times> cursor" where
  "process_song_frame env cur df =
     (case df of
        [] \<Rightarrow> (Some KeyError, cur)
      | r # rest \<Rightarrow>
          and_then (execute env song_table_insert (song_data r) cur)
                   (execute env artist_table_insert (artist_data r)))"

definition process_song_file :: "env \<Rightarrow> cursor \<Rightarrow> string list \<Rightarrow> error option \<times> cursor" where
  "process_song_file env cur filepath =
     (case read_song_json env filepath of
        Inl e \<Rightarrow> (Some e, cur)
      | Inr df \<Rightarrow> process_song_frame env cur df)"

text \<open>
  \<^verbatim>\<open>process_log_file\<close>. Line 49 keeps the rows whose page is the string NextSong; on
  the frame of a document without a line, which has no columns, it raises \<^verbatim>\<open>KeyError\<close>.
\<close>

definition is_play :: "event \<Rightarrow> bool" where
  "is_play r = (page r = Str ''NextSong'')"

definition user_data :: "event \<Rightarrow> val list" where
  "user_data r = [userId r, firstName r, lastName r, gender r, level r]"

text \<open>
  Lines 72 to 92, the body of the last loop, for one row. A fetched row is a pair and
  so is true in the test of line 76; \<^verbatim>\<open>None\<close> is false.
\<close>

definition songplay_data :: "env \<Rightarrow> event \<Rightarrow> val \<Rightarrow> val \<Rightarrow> val list" where
  "songplay_data env r songid artistid =
     [Time (fromtimestamp (utcoffset env) (ts r)), userId r, level r, songid, artistid,
      sessionId r, location r, userAgent r]"

definition insert_songplay :: "env \<Rightarrow> event \<Rightarrow> cursor \<Rightarrow> error option \<times> cursor" where
  "insert_songplay env r cur =
     and_then (execute env song_select [song r, artist r, song_length r] cur)
       (\<lambda>c. case fetchone c of
               (Some (songid, artistid), c') \<Rightarrow>
                 execute env songplay_table_insert (songplay_data env r songid artistid) c'
             | (None, c') \<Rightarrow>
                 execute env songplay_table_insert (songplay_data env r Null Null) c')"

definition process_log_frame :: "env \<Rightarrow> cursor \<Rightarrow> event list \<Rightarrow> error option \<times> cursor" where
  "process_log_frame env cur df0 =
     (if df0 = [] then (Some KeyError, cur)
      else
        (let df = filter is_play df0
         in case to_datetime (map ts df) of
              Inl e \<Rightarrow> (Some e, cur)
            | Inr t \<Rightarrow>
                and_then (for_each (\<lambda>ms. execute env time_table_insert (time_data ms)) t cur)
                  (\<lambda>c. and_then (for_each (\<lambda>r. execute env user_table_insert (user_data r)) df c)
                         (for_each (insert_songplay env) df))))"

definition process_log_file :: "env \<Rightarrow> cursor \<Rightarrow> string list \<Rightarrow> error option \<times> cursor" where
  "process_log_file env cur filepath =
     (case read_log_json env filepath of
        Inl e \<Rightarrow> (Some e, cur)
      | Inr df \<Rightarrow> process_log_frame env cur df)"

section \<open>The loader\<close>

text \<open>
  \<^verbatim>\<open>process_data\<close>: lines 117 to 120 are \<open>process_files\<close>, over the list that lines 106 to
  110 have built. The two \<^verbatim>\<open>print\<close> calls write progress to the terminal and are left
  out.
\<close>

fun process_files ::
  "env \<Rightarrow> (cursor \<Rightarrow> string list \<Rightarrow> error option \<times> cursor) \<Rightarrow> string list list \<Rightarrow> cursor
     \<Rightarrow> error option \<times> cursor" where
  "process_files env func [] cur = (None, cur)"
| "process_files env func (datafile # rest) cur =
     and_then (func cur datafile)
       (\<lambda>c. and_then (commit env c) (process_files env func rest))"

definition process_data ::
  "env \<Rightarrow> cursor \<Rightarrow> string list \<Rightarrow> (cursor \<Rightarrow> string list \<Rightarrow> error option \<times> cursor)
     \<Rightarrow> error option \<times> cursor" where
  "process_data env cur folder_path func =
     process_files env func (all_files (glob_magic env) (cwd env) (tree env) folder_path) cur"

section \<open>What is observed of a run\<close>

text \<open>The gateway takes every statement: no \<^verbatim>\<open>cur.execute\<close> raises.\<close>

definition accepts :: "env \<Rightarrow> bool" where
  "accepts env = (\<forall>h s ps d. \<exists>d'. gw_run env h s ps d = Inr d')"

text \<open>The calls a step has added to the trace of the cursor it started from.\<close>

definition emitted :: "cursor \<Rightarrow> error option \<times> cursor \<Rightarrow> call list" where
  "emitted cur r = drop (length (trace cur)) (trace (snd r))"

fun is_exec :: "stmt \<Rightarrow> call \<Rightarrow> bool" where
  "is_exec s (Execute s' ps) = (s' = s)"
| "is_exec s Fetchone = False"
| "is_exec s Commit = False"

definition count_stmt :: "stmt \<Rightarrow> call list \<Rightarrow> nat" where
  "count_stmt s cs = length (filter (is_exec s) cs)"

text \<open>
  The three calls of one pass through the last loop of \<^verbatim>\<open>process_log_file\<close>, for the
  identifiers \<open>ids\<close> that the pass has settled on.
\<close>

definition songplay_calls :: "env \<Rightarrow> event \<Rightarrow> val \<times> val \<Rightarrow> call list" where
  "songplay_calls env r ids =
     [Execute song_select [song r, artist r, song_length r], Fetchone,
      Execute songplay_table_insert (songplay_data env r (fst ids) (snd ids))]"

definition first_row :: "(val \<times> val) list \<Rightarrow> val \<times> val" where
  "first_row rows = (case rows of [] \<Rightarrow> (Null, Null) | x # xs \<Rightarrow> x)"

text \<open>
  An extractor that only adds calls to the trace and never commits, and the calls each
  file of a list gives rise to when the loader runs the extractor over the list.
\<close>

definition appends_only :: "(cursor \<Rightarrow> string list \<Rightarrow> error option \<times> cursor) \<Rightarrow> bool" where
  "appends_only func =
     (\<forall>cur f. \<exists>ws. trace (snd (func cur f)) = trace cur @ ws \<and> list_all (\<lambda>c. c \<noteq> Commit) ws)"

fun file_units ::
  "env \<Rightarrow> (cursor \<Rightarrow> string list \<Rightarrow> error option \<times> cursor) \<Rightarrow> string list list \<Rightarrow> cursor
     \<Rightarrow> call list list" where
  "file_units env func [] cur = []"
| "file_units env func (f # rest) cur =
     emitted cur (func cur f) # file_units env func rest (snd (commit env (snd (func cur f))))"

section \<open>The lookup statement\<close>

text \<open>
  Modelled from the spec: the text of \<^verbatim>\<open>song_select\<close> is in \<^verbatim>\<open>sql_queries\<close>, which is not
  among the sources. The spec describes it as the exact-match join across songs and
  artists that returns the (song_id, artist_id) of every pair whose title, artist name
  and duration equal the three parameters. A pair is a song with the artist its
  artist identifier names.
\<close>

definition song_select_rows :: "database \<Rightarrow> val \<Rightarrow> val \<Rightarrow> val \<Rightarrow> (val \<times> val) list" where
  "song_select_rows d t n l =
     concat (map (\<lambda>s. concat (map (\<lambda>a.
        if s_artist_id s = a_artist_id a \<and> s_title s = t \<and> a_name a = n \<and> s_duration s = l
        then [(s_song_id s, a_artist_id a)] else []) (artists d))) (songs d))"

text \<open>The claim's words: a persisted pair that matches a play event.\<close>

definition matching_pair :: "database \<Rightarrow> event \<Rightarrow> song_row \<Rightarrow> artist_row \<Rightarrow> bool" where
  "matching_pair d r s a =
     (s \<in> set (songs d) \<and> a \<in> set (artists d) \<and> s_artist_id s = a_artist_id a
      \<and> s_title s = song r \<and> a_name a = artist r \<and> s_duration s = song_length r)"

section \<open>Sample inputs\<close>

definition sample_song :: song_record where
  "sample_song = \<lparr> song_id = Str ''S1'', title = Str ''Song A'', artist_id = Str ''AR1'',
     year = Num 2000, duration = Num (361 / 2), artist_name = Str ''Artist X'',
     artist_location = Str ''NYC'', artist_latitude = Num (407 / 10),
     artist_longitude = Num (- 74) \<rparr>"

definition other_song :: song_record where
  "other_song = \<lparr> song_id = Str ''S2'', title = Str ''Song B'', artist_id = Str ''AR2'',
     year = Num 0, duration = Num 200, artist_name = Str ''Artist Y'',
     artist_location = Null, artist_latitude = Null, artist_longitude = Null \<rparr>"

definition sample_play :: event where
  "sample_play = \<lparr> page = Str ''NextSong'', ts = 1000000000000, userId = Str ''8'',
     firstName = Str ''Kaylee'', lastName = Str ''Summers'', gender = Str ''F'',
     level = Str ''free'', song = Str ''Song A'', artist = Str ''Artist X'',
     song_length = Num (361 / 2), sessionId = Num 139, location = Str ''Phoenix'',
     userAgent = Str ''Mozilla'' \<rparr>"

definition sample_home :: event where
  "sample_home = \<lparr> page = Str ''Home'', ts = 1000000001000, userId = Str ''8'',
     firstName = Str ''Kaylee'', lastName = Str ''Summers'', gender = Str ''F'',
     level = Str ''free'', song = Null, artist = Null,
     song_length = Null, sessionId = Num 139, location = Str ''Phoenix'',
     userAgent = Str ''Mozilla'' \<rparr>"

text \<open>Two songs of one artist that share title and duration, and a third song.\<close>

definition sample_db :: database where
  "sample_db = \<lparr> songs =
       [\<lparr> s_song_id = Str ''S1'', s_title = Str ''Song A'', s_artist_id = Str ''AR1'',
           s_year = Num 2000, s_duration = Num (361 / 2) \<rparr>,
        \<lparr> s_song_id = Str ''S7'', s_title = Str ''Song A'', s_artist_id = Str ''AR1'',
           s_year = Num 2003, s_duration = Num (361 / 2) \<rparr>,
        \<lparr> s_song_id = Str ''S2'', s_title = Str ''Song B'', s_artist_id = Str ''AR2'',
           s_year = Num 0, s_duration = Num 200 \<rparr>],
     artists =
       [\<lparr> a_artist_id = Str ''AR1'', a_name = Str ''Artist X'', a_location = Str ''NYC'',
           a_latitude = Num (407 / 10), a_longitude = Num (- 74) \<rparr>,
        \<lparr> a_artist_id = Str ''AR2'', a_name = Str ''Artist Y'', a_location = Null,
           a_latitude = Null, a_longitude = Null \<rparr>] \<rparr>"

definition sample_cursor :: cursor where
  "sample_cursor = \<lparr> db = sample_db, results = [], trace = [] \<rparr>"

definition sample_tree :: node where
  "sample_tree =
     Dir [(''data'',
       Dir [(''song_data'',
              Dir [(''A'', Dir [(''a.json'', File)]), (''b.json'', File),
                   (''C'', Dir [(''c.json'', File)])]),
            (''log_data'', Dir [(''e.json'', File)])])]"

text \<open>
  A machine whose local zone is \<open>off\<close> seconds ahead of UTC, whose gateway takes every
  statement, and where reading the song file \<^verbatim>\<open>A/a.json\<close> gives \<open>second\<close>. The walk
  of \<^verbatim>\<open>data/song_data\<close> finds \<^verbatim>\<open>b.json\<close>, \<^verbatim>\<open>A/a.json\<close> and \<^verbatim>\<open>C/c.json\<close>, in this order.
\<close>

definition sample_env :: "int \<Rightarrow> error + song_record list \<Rightarrow> env" where
  "sample_env off second =
     \<lparr> read_song_json = (\<lambda>p.
          if p = [''home'', ''etl'', ''data'', ''song_data'', ''b.json''] then Inr [sample_song]
          else if p = [''home'', ''etl'', ''data'', ''song_data'', ''A'', ''a.json''] then second
          else if p = [''home'', ''etl'', ''data'', ''song_data'', ''C'', ''c.json'']
            then Inr [sample_song]
          else Inl ParseError),
        read_log_json = (\<lambda>p.
          if p = [''home'', ''etl'', ''data'', ''log_data'', ''e.json'']
          then Inr [sample_play, sample_home] else Inl ParseError),
        gw_run = (\<lambda>h s ps d. Inr d),
        gw_select = song_select_rows,
        gw_commit = (\<lambda>h d. Inr d),
        utcoffset = (\<lambda>t. off),
        cwd = [''home'', ''etl''],
        tree = sample_tree,
        glob_magic = (\<lambda>p. []) \<rparr>"



text \<open>
  A tree with a directory whose name ends in \<^verbatim>\<open>.json\<close> and a file whose name starts with
  a dot.
\<close>

definition odd_tree :: node where
  "odd_tree =
     Dir [(''data'',
       Dir [(''a.json'', File), (''old.json'', Dir [(''b.json'', File)]), (''.c.json'', File),
            (''notes.txt'', File)])]"

section \<open>Steps and loops\<close>

lemma and_then_None [simp]: "and_then (None, c) f = f c"
  by (simp add: and_then_def)

lemma and_then_Some [simp]: "and_then (Some e, c) f = (Some e, c)"
  by (simp add: and_then_def)

lemma execute_trace [simp]: "trace (snd (execute env s ps cur)) = trace cur @ [Execute s ps]"
  by (simp add: execute_def Let_def split: sum.splits)

lemma execute_cases:
  obtains e where "gw_run env (trace cur) s ps (db cur) = Inl e"
      "execute env s ps cur = (Some e, cur\<lparr>trace := trace cur @ [Execute s ps]\<rparr>)"
  | d where "gw_run env (trace cur) s ps (db cur) = Inr d"
      "fst (execute env s ps cur) = None"
  by (cases "gw_run env (trace cur) s ps (db cur)") (auto simp: execute_def Let_def)

lemma execute_accepts: "accepts env \<Longrightarrow> fst (execute env s ps cur) = None"
proof -
  assume "accepts env"
  then obtain d where "gw_run env (trace cur) s ps (db cur) = Inr d"
    unfolding accepts_def by blast
  then show ?thesis by (simp add: execute_def Let_def)
qed

lemma for_each_Cons_None:
  "body x cur = (None, c) \<Longrightarrow> for_each body (x # xs) cur = for_each body xs c"
  by simp

lemma for_each_Cons_Some:
  "body x cur = (Some e, c) \<Longrightarrow> for_each body (x # xs) cur = (Some e, c)"
  by simp

lemma for_each_execute:
  "\<exists>k \<le> length xs. trace (snd (for_each (\<lambda>x. execute env s (f x)) xs cur))
        = trace cur @ map (\<lambda>x. Execute s (f x)) (take k xs)
     \<and> (fst (for_each (\<lambda>x. execute env s (f x)) xs cur) = None \<longrightarrow> k = length xs)"
proof (induction xs arbitrary: cur)
  case Nil
  then show ?case by simp
next
  case (Cons x xs)
  let ?b = "\<lambda>x. execute env s (f x)"
  obtain r c where ex: "?b x cur = (r, c)" by (cases "?b x cur")
  have tc: "trace c = trace cur @ [Execute s (f x)]"
    using execute_trace [of env s "f x" cur] ex by simp
  show ?case
  proof (cases r)
    case None
    then have step: "for_each ?b (x # xs) cur = for_each ?b xs c"
      using ex by (intro for_each_Cons_None) simp
    from Cons.IH [of c] obtain k where kk: "k \<le> length xs \<and>
      trace (snd (for_each ?b xs c)) = trace c @ map (\<lambda>x. Execute s (f x)) (take k xs) \<and>
      (fst (for_each ?b xs c) = None \<longrightarrow> k = length xs)" ..
    then have k: "k \<le> length xs"
      "trace (snd (for_each ?b xs c)) = trace c @ map (\<lambda>x. Execute s (f x)) (take k xs)"
      "fst (for_each ?b xs c) = None \<longrightarrow> k = length xs" by simp_all
    have "Suc k \<le> length (x # xs)" using k(1) by simp
    moreover have "trace (snd (for_each ?b (x # xs) cur))
        = trace cur @ map (\<lambda>x. Execute s (f x)) (take (Suc k) (x # xs))"
      unfolding step k(2) tc by simp
    moreover have "fst (for_each ?b (x # xs) cur) = None \<longrightarrow> Suc k = length (x # xs)"
      unfolding step using k(3) by simp
    ultimately show ?thesis by (intro exI [of _ "Suc k"] conjI)
  next
    case (Some e)
    then have step: "for_each ?b (x # xs) cur = (Some e, c)"
      using ex by (intro for_each_Cons_Some) simp
    have "Suc 0 \<le> length (x # xs)" by simp
    moreover have "trace (snd (for_each ?b (x # xs) cur))
        = trace cur @ map (\<lambda>x. Execute s (f x)) (take (Suc 0) (x # xs))"
      unfolding step using tc by simp
    moreover have "fst (for_each ?b (x # xs) cur) = None \<longrightarrow> Suc 0 = length (x # xs)"
      unfolding step by simp
    ultimately show ?thesis by (intro exI [of _ "Suc 0"] conjI)
  qed
qed


lemma fetchone_trace [simp]: "trace (snd (fetchone cur)) = trace cur @ [Fetchone]"
  by (simp add: fetchone_def Let_def split: list.splits)

lemma insert_songplay_trace:
  "\<exists>ws. trace (snd (insert_songplay env r cur)) = trace cur @ ws
        \<and> list_all (\<lambda>c. \<not> is_exec time_table_insert c \<and> \<not> is_exec user_table_insert c
                    \<and> c \<noteq> Commit) ws"
proof -
  let ?sel = "execute env song_select [song r, artist r, song_length r] cur"
  obtain e c where ex: "?sel = (e, c)" by (cases ?sel)
  have tc: "trace c = trace cur @ [Execute song_select [song r, artist r, song_length r]]"
    using execute_trace [of env song_select "[song r, artist r, song_length r]" cur] ex by simp
  show ?thesis
  proof (cases e)
    case (Some err)
    then have "insert_songplay env r cur = (Some err, c)"
      using ex by (simp add: insert_songplay_def)
    then show ?thesis using tc by simp
  next
    case None
    obtain row c' where f: "fetchone c = (row, c')" by (cases "fetchone c")
    have tc': "trace c' = trace c @ [Fetchone]"
      using fetchone_trace [of c] f by simp
    show ?thesis
    proof (cases row)
      case None': None
      have "insert_songplay env r cur
            = execute env songplay_table_insert (songplay_data env r Null Null) c'"
        using ex None f None' by (simp add: insert_songplay_def)
      then show ?thesis using tc tc' by simp
    next
      case (Some ids)
      obtain a b where ids: "ids = (a, b)" by (cases ids)
      have "insert_songplay env r cur
            = execute env songplay_table_insert (songplay_data env r a b) c'"
        using ex None f Some ids by (simp add: insert_songplay_def)
      then show ?thesis using tc tc' by simp
    qed
  qed
qed

lemma insert_songplay_accepted:
  assumes "gw_run env (trace cur) song_select [song r, artist r, song_length r] (db cur) = Inr d"
  shows "trace (snd (insert_songplay env r cur)) = trace cur @
     songplay_calls env r (first_row (gw_select env (db cur) (song r) (artist r) (song_length r)))"
proof -
  let ?rows = "gw_select env (db cur) (song r) (artist r) (song_length r)"
  let ?c = "cur\<lparr>trace := trace cur @ [Execute song_select [song r, artist r, song_length r]],
                 db := d, results := ?rows\<rparr>"
  have ex: "execute env song_select [song r, artist r, song_length r] cur = (None, ?c)"
    using assms by (simp add: execute_def Let_def)
  show ?thesis
  proof (cases ?rows)
    case Nil
    then have f: "fetchone ?c = (None, ?c\<lparr>trace := trace ?c @ [Fetchone]\<rparr>)"
      by (simp add: fetchone_def Let_def)
    have "insert_songplay env r cur
            = execute env songplay_table_insert (songplay_data env r Null Null)
                (?c\<lparr>trace := trace ?c @ [Fetchone]\<rparr>)"
      unfolding insert_songplay_def ex and_then_None f by simp
    then show ?thesis using Nil by (simp add: songplay_calls_def first_row_def)
  next
    case (Cons x xs)
    obtain a b where x: "x = (a, b)" by (cases x)
    have f: "fetchone ?c = (Some (a, b), ?c\<lparr>trace := trace ?c @ [Fetchone], results := xs\<rparr>)"
      using Cons x by (simp add: fetchone_def Let_def)
    have "insert_songplay env r cur
            = execute env songplay_table_insert (songplay_data env r a b)
                (?c\<lparr>trace := trace ?c @ [Fetchone], results := xs\<rparr>)"
      unfolding insert_songplay_def ex and_then_None f by simp
    then show ?thesis using Cons x by (simp add: songplay_calls_def first_row_def)
  qed
qed

lemma insert_songplay_accepts:
  assumes "accepts env"
  shows "fst (insert_songplay env r cur) = None"
proof -
  let ?sel = "execute env song_select [song r, artist r, song_length r] cur"
  obtain e c where ex: "?sel = (e, c)" by (cases ?sel)
  have e: "e = None"
    using execute_accepts [OF assms, of song_select "[song r, artist r, song_length r]" cur] ex
    by simp
  obtain row c' where f: "fetchone c = (row, c')" by (cases "fetchone c")
  show ?thesis
  proof (cases row)
    case None
    then show ?thesis
      unfolding insert_songplay_def ex e and_then_None f
      using execute_accepts [OF assms] by simp
  next
    case (Some ids)
    obtain a b where ids: "ids = (a, b)" by (cases ids)
    show ?thesis
      unfolding insert_songplay_def ex e and_then_None f Some ids
      using execute_accepts [OF assms] by simp
  qed
qed

lemma for_each_trace_ext:
  assumes "\<And>x c. \<exists>ws. trace (snd (body x c)) = trace c @ ws \<and> list_all P ws"
  shows "\<exists>ws. trace (snd (for_each body xs cur)) = trace cur @ ws \<and> list_all P ws"
proof (induction xs arbitrary: cur)
  case Nil
  then show ?case by simp
next
  case (Cons x xs)
  obtain r c where ex: "body x cur = (r, c)" by (cases "body x cur")
  from assms [of x cur] obtain ws where ws0: "trace (snd (body x cur)) = trace cur @ ws \<and> list_all P ws" ..
  then have ws: "trace c = trace cur @ ws" "list_all P ws" using ex by simp_all
  show ?case
  proof (cases r)
    case None
    then have step: "for_each body (x # xs) cur = for_each body xs c"
      using ex by (intro for_each_Cons_None) simp
    from Cons.IH [of c] obtain vs where vs: "trace (snd (for_each body xs c)) = trace c @ vs \<and> list_all P vs" ..
    have "trace (snd (for_each body (x # xs) cur)) = trace cur @ (ws @ vs) \<and> list_all P (ws @ vs)"
      unfolding step using vs ws by simp
    then show ?thesis by (rule exI)
  next
    case (Some e)
    then have step: "for_each body (x # xs) cur = (Some e, c)"
      using ex by (intro for_each_Cons_Some) simp
    have "trace (snd (for_each body (x # xs) cur)) = trace cur @ ws \<and> list_all P ws"
      unfolding step using ws by simp
    then show ?thesis by (rule exI)
  qed
qed


lemma and_then_fst_None: "fst r = None \<Longrightarrow> and_then r f = f (snd r)"
  by (cases r) simp

lemma and_then_fst_Some: "fst r = Some e \<Longrightarrow> and_then r f = r"
  by (cases r) simp

lemma count_stmt_append [simp]: "count_stmt s (xs @ ys) = count_stmt s xs + count_stmt s ys"
  by (simp add: count_stmt_def)

lemma count_stmt_Nil [simp]: "count_stmt s [] = 0"
  by (simp add: count_stmt_def)

lemma count_stmt_map_Execute [simp]:
  "count_stmt s (map (\<lambda>x. Execute s' (f x)) xs) = (if s' = s then length xs else 0)"
  by (induction xs) (simp_all add: count_stmt_def)



lemma in_concat_map_if:
  "p \<in> set (concat (map (\<lambda>a. if C a then [g a] else []) xs)) \<longleftrightarrow> (\<exists>a. a \<in> set xs \<and> C a \<and> p = g a)"
  by (induction xs) auto

lemma in_concat_map:
  "p \<in> set (concat (map f xs)) \<longleftrightarrow> (\<exists>x. x \<in> set xs \<and> p \<in> set (f x))"
  by (induction xs) auto

lemma set_song_select_rows:
  "p \<in> set (song_select_rows d (song r) (artist r) (song_length r))
     \<longleftrightarrow> (\<exists>s a. matching_pair d r s a \<and> p = (s_song_id s, a_artist_id a))"
  unfolding song_select_rows_def matching_pair_def in_concat_map in_concat_map_if
  by (intro iff_exI) auto

lemma list_all_map_Execute [simp]: "list_all (is_exec s) (map (\<lambda>x. Execute s (f x)) xs)"
  by (induction xs) simp_all

lemma process_log_frame_order:
  "\<exists>tm us sp. trace (snd (process_log_frame env cur df0)) = trace cur @ tm @ us @ sp
     \<and> list_all (is_exec time_table_insert) tm
     \<and> list_all (is_exec user_table_insert) us
     \<and> list_all (\<lambda>c. \<not> is_exec time_table_insert c \<and> \<not> is_exec user_table_insert c
                    \<and> c \<noteq> Commit) sp"
proof -
  let ?P = "\<lambda>c. \<not> is_exec time_table_insert c \<and> \<not> is_exec user_table_insert c \<and> c \<noteq> Commit"
  let ?Q = "\<lambda>r tm us sp. trace (snd r) = trace cur @ tm @ us @ sp
     \<and> list_all (is_exec time_table_insert) tm
     \<and> list_all (is_exec user_table_insert) us \<and> list_all ?P sp"
  let ?df = "filter is_play df0"
  let ?T = "for_each (\<lambda>ms. execute env time_table_insert (time_data ms)) (map ts ?df) cur"
  let ?U = "for_each (\<lambda>r. execute env user_table_insert (user_data r)) ?df (snd ?T)"
  let ?S = "for_each (insert_songplay env) ?df (snd ?U)"
  have stop: "?Q (e, cur) [] [] []" for e :: "error option" by simp
  show ?thesis
  proof (cases "df0 = [] \<or> (\<exists>e. to_datetime (map ts ?df) = Inl e)")
    case True
    have "\<exists>e. process_log_frame env cur df0 = (Some e, cur)"
    proof (cases "df0 = []")
      case True
      then show ?thesis by (simp add: process_log_frame_def)
    next
      case False
      with True obtain e where "to_datetime (map ts ?df) = Inl e" by (elim disjE exE) simp_all
      then show ?thesis using False by (simp add: process_log_frame_def Let_def)
    qed
    then obtain e where "process_log_frame env cur df0 = (Some e, cur)" ..
    then have "?Q (process_log_frame env cur df0) [] [] []" by simp
    then show ?thesis by (intro exI)
  next
    case False
    then have ne: "df0 \<noteq> []" by simp
    have td: "to_datetime (map ts ?df) = Inr (map ts ?df)"
      using False unfolding to_datetime_def by (simp split: if_splits)
    have run: "process_log_frame env cur df0
        = and_then ?T (\<lambda>c. and_then (for_each (\<lambda>r. execute env user_table_insert (user_data r)) ?df c)
                         (for_each (insert_songplay env) ?df))"
      unfolding process_log_frame_def Let_def td using ne by simp
    from for_each_execute [of "map ts ?df" env time_table_insert time_data cur]
    obtain k where "k \<le> length (map ts ?df) \<and> trace (snd ?T)
        = trace cur @ map (\<lambda>x. Execute time_table_insert (time_data x)) (take k (map ts ?df))
        \<and> (fst ?T = None \<longrightarrow> k = length (map ts ?df))" ..
    then have T: "trace (snd ?T)
        = trace cur @ map (\<lambda>x. Execute time_table_insert (time_data x)) (take k (map ts ?df))"
      by simp
    let ?tm = "map (\<lambda>x. Execute time_table_insert (time_data x)) (take k (map ts ?df))"
    show ?thesis
    proof (cases "fst ?T")
      case (Some e)
      have "process_log_frame env cur df0 = ?T"
        unfolding run by (rule and_then_fst_Some [OF Some])
      then have "?Q (process_log_frame env cur df0) ?tm [] []" using T by simp
      then show ?thesis by (intro exI)
    next
      case None
      have run2: "process_log_frame env cur df0 = and_then ?U (for_each (insert_songplay env) ?df)"
        unfolding run by (rule and_then_fst_None [OF None])
      from for_each_execute [of ?df env user_table_insert user_data "snd ?T"]
      obtain j where "j \<le> length ?df \<and> trace (snd ?U)
          = trace (snd ?T) @ map (\<lambda>x. Execute user_table_insert (user_data x)) (take j ?df)
          \<and> (fst ?U = None \<longrightarrow> j = length ?df)" ..
      then have U: "trace (snd ?U)
          = trace (snd ?T) @ map (\<lambda>x. Execute user_table_insert (user_data x)) (take j ?df)"
        by simp
      let ?us = "map (\<lambda>x. Execute user_table_insert (user_data x)) (take j ?df)"
      show ?thesis
      proof (cases "fst ?U")
        case (Some e)
        have "process_log_frame env cur df0 = ?U"
          unfolding run2 by (rule and_then_fst_Some [OF Some])
        then have "?Q (process_log_frame env cur df0) ?tm ?us []" using T U by simp
        then show ?thesis by (intro exI)
      next
        case None
        have run3: "process_log_frame env cur df0 = ?S"
          unfolding run2 by (rule and_then_fst_None [OF None])
        from for_each_trace_ext [of "insert_songplay env" ?P ?df "snd ?U", OF insert_songplay_trace]
        obtain sp where "trace (snd ?S) = trace (snd ?U) @ sp \<and> list_all ?P sp" ..
        then have "?Q (process_log_frame env cur df0) ?tm ?us sp"
          unfolding run3 using T U by simp
        then show ?thesis by (intro exI)
      qed
    qed
  qed
qed

lemma process_log_file_order:
  "\<exists>tm us sp. trace (snd (process_log_file env cur filepath)) = trace cur @ tm @ us @ sp
     \<and> list_all (is_exec time_table_insert) tm
     \<and> list_all (is_exec user_table_insert) us
     \<and> list_all (\<lambda>c. \<not> is_exec time_table_insert c \<and> \<not> is_exec user_table_insert c
                    \<and> c \<noteq> Commit) sp"
proof (cases "read_log_json env filepath")
  case (Inl e)
  then have "process_log_file env cur filepath = (Some e, cur)"
    by (simp add: process_log_file_def)
  then have "trace (snd (process_log_file env cur filepath)) = trace cur @ [] @ [] @ []
     \<and> list_all (is_exec time_table_insert) []
     \<and> list_all (is_exec user_table_insert) []
     \<and> list_all (\<lambda>c. \<not> is_exec time_table_insert c \<and> \<not> is_exec user_table_insert c
                    \<and> c \<noteq> Commit) []"
    by simp
  then show ?thesis by (intro exI)
next
  case (Inr df)
  then have "process_log_file env cur filepath = process_log_frame env cur df"
    by (simp add: process_log_file_def)
  then show ?thesis using process_log_frame_order [of env cur df] by simp
qed

lemma commit_trace [simp]: "trace (snd (commit env cur)) = trace cur @ [Commit]"
  by (simp add: commit_def Let_def split: sum.splits)

lemma appends_onlyD:
  assumes "appends_only func"
  shows "trace (snd (func cur f)) = trace cur @ emitted cur (func cur f)"
    and "list_all (\<lambda>c. c \<noteq> Commit) (emitted cur (func cur f))"
proof -
  from assms have "\<exists>ws. trace (snd (func cur f)) = trace cur @ ws \<and> list_all (\<lambda>c. c \<noteq> Commit) ws"
    unfolding appends_only_def by simp
  then obtain ws where ws: "trace (snd (func cur f)) = trace cur @ ws \<and> list_all (\<lambda>c. c \<noteq> Commit) ws" ..
  then have "emitted cur (func cur f) = ws" by (simp add: emitted_def)
  with ws show "trace (snd (func cur f)) = trace cur @ emitted cur (func cur f)"
    and "list_all (\<lambda>c. c \<noteq> Commit) (emitted cur (func cur f))" by simp_all
qed

lemma and_then_cases:
  "and_then r f = (case fst r of Some e \<Rightarrow> r | None \<Rightarrow> f (snd r))"
proof (cases "fst r")
  case None
  then show ?thesis by (simp add: and_then_fst_None)
next
  case (Some e)
  then show ?thesis using and_then_fst_Some [OF Some] by simp
qed

lemma process_files_Cons:
  "process_files env func (f # rest) cur =
     (case fst (func cur f) of
        Some e \<Rightarrow> func cur f
      | None \<Rightarrow> (case fst (commit env (snd (func cur f))) of
                   Some e \<Rightarrow> commit env (snd (func cur f))
                 | None \<Rightarrow> process_files env func rest (snd (commit env (snd (func cur f))))))"
  by (simp add: and_then_cases)

lemma process_files_success_step:
  assumes "process_files env func (f # rest) cur = (None, cur')"
  shows "fst (func cur f) = None" and "fst (commit env (snd (func cur f))) = None"
    and "process_files env func rest (snd (commit env (snd (func cur f)))) = (None, cur')"
proof -
  show a: "fst (func cur f) = None"
  proof (cases "fst (func cur f)")
    case (Some e)
    then have eq: "process_files env func (f # rest) cur = func cur f"
      by (simp add: process_files_Cons del: process_files.simps)
    from assms [unfolded eq] have "fst (func cur f) = None" by simp
    with Some show ?thesis by simp
  qed simp
  show b: "fst (commit env (snd (func cur f))) = None"
  proof (cases "fst (commit env (snd (func cur f)))")
    case (Some e)
    then have eq: "process_files env func (f # rest) cur = commit env (snd (func cur f))"
      using a by (simp add: process_files_Cons del: process_files.simps)
    from assms [unfolded eq] have "fst (commit env (snd (func cur f))) = None" by simp
    with Some show ?thesis by simp
  qed simp
  have eq: "process_files env func (f # rest) cur
      = process_files env func rest (snd (commit env (snd (func cur f))))"
    using a b by (simp add: process_files_Cons del: process_files.simps)
  show "process_files env func rest (snd (commit env (snd (func cur f)))) = (None, cur')"
    using assms unfolding eq .
qed

lemma length_file_units [simp]: "length (file_units env func files cur) = length files"
  by (induction files arbitrary: cur) simp_all

lemma file_units_no_commit:
  assumes "appends_only func"
  shows "list_all (list_all (\<lambda>c. c \<noteq> Commit)) (file_units env func files cur)"
  by (induction files arbitrary: cur) (simp_all add: appends_onlyD(2) [OF assms])

lemma process_files_trace:
  assumes ap: "appends_only func"
  shows "process_files env func files cur = (None, cur') \<Longrightarrow>
    trace cur' = trace cur @ concat (map (\<lambda>u. u @ [Commit]) (file_units env func files cur))"
proof (induction files arbitrary: cur)
  case Nil
  then show ?case by simp
next
  case (Cons f rest)
  let ?c1 = "snd (func cur f)"
  let ?c2 = "snd (commit env ?c1)"
  have rest: "process_files env func rest ?c2 = (None, cur')"
    by (rule process_files_success_step(3) [OF Cons.prems])
  have "trace cur' = trace ?c2 @ concat (map (\<lambda>u. u @ [Commit]) (file_units env func rest ?c2))"
    by (rule Cons.IH [OF rest])
  then show ?case
    using appends_onlyD(1) [OF ap, of cur f] by simp
qed


lemma is_exec_not_Commit: "list_all (is_exec s) ws \<Longrightarrow> list_all (\<lambda>c. c \<noteq> Commit) ws"
proof (induction ws)
  case Nil
  then show ?case by simp
next
  case (Cons w ws)
  then show ?case by (cases w) simp_all
qed

lemma song_file_appends: "appends_only (process_song_file env)"
  unfolding appends_only_def
proof (intro allI)
  fix cur :: cursor and f :: "string list"
  let ?goal = "\<lambda>r. \<exists>ws. trace (snd r) = trace cur @ ws \<and> list_all (\<lambda>c. c \<noteq> Commit) ws"
  have stop: "?goal (Some e, cur)" for e by simp
  show "?goal (process_song_file env cur f)"
  proof (cases "read_song_json env f")
    case (Inl e)
    then have "process_song_file env cur f = (Some e, cur)" by (simp add: process_song_file_def)
    then show ?thesis using stop by simp
  next
    case (Inr df)
    show ?thesis
    proof (cases df)
      case Nil
      then have "process_song_file env cur f = (Some KeyError, cur)"
        using Inr by (simp add: process_song_file_def process_song_frame_def)
      then show ?thesis using stop by simp
    next
      case (Cons r rest)
      let ?a = "execute env song_table_insert (song_data r) cur"
      have run: "process_song_file env cur f
          = (case fst ?a of Some e \<Rightarrow> ?a
             | None \<Rightarrow> execute env artist_table_insert (artist_data r) (snd ?a))"
        using Inr Cons by (simp add: process_song_file_def process_song_frame_def and_then_cases)
      show ?thesis
      proof (cases "fst ?a")
        case None
        then have "trace (snd (process_song_file env cur f)) = trace cur @
            [Execute song_table_insert (song_data r), Execute artist_table_insert (artist_data r)]
          \<and> list_all (\<lambda>c. c \<noteq> Commit)
            [Execute song_table_insert (song_data r), Execute artist_table_insert (artist_data r)]"
          unfolding run by simp
        then show ?thesis by (intro exI)
      next
        case (Some e)
        then have "trace (snd (process_song_file env cur f)) = trace cur @
            [Execute song_table_insert (song_data r)]
          \<and> list_all (\<lambda>c. c \<noteq> Commit) [Execute song_table_insert (song_data r)]"
          unfolding run by simp
        then show ?thesis by (intro exI)
      qed
    qed
  qed
qed

lemma log_file_appends: "appends_only (process_log_file env)"
  unfolding appends_only_def
proof (intro allI)
  fix cur :: cursor and f :: "string list"
  from process_log_file_order [of env cur f]
  obtain tm us sp where o: "trace (snd (process_log_file env cur f)) = trace cur @ tm @ us @ sp
     \<and> list_all (is_exec time_table_insert) tm
     \<and> list_all (is_exec user_table_insert) us
     \<and> list_all (\<lambda>c. \<not> is_exec time_table_insert c \<and> \<not> is_exec user_table_insert c
                    \<and> c \<noteq> Commit) sp"
    by (elim exE)
  then have "list_all (\<lambda>c. c \<noteq> Commit) sp" by (simp add: list_all_iff)
  then have "trace (snd (process_log_file env cur f)) = trace cur @ (tm @ us @ sp)
     \<and> list_all (\<lambda>c. c \<noteq> Commit) (tm @ us @ sp)"
    using o is_exec_not_Commit [of time_table_insert tm] is_exec_not_Commit [of user_table_insert us]
    by simp
  then show "\<exists>ws. trace (snd (process_log_file env cur f)) = trace cur @ ws
      \<and> list_all (\<lambda>c. c \<noteq> Commit) ws"
    by (intro exI)
qed

lemmas sample_defs =
  sample_env_def sample_cursor_def sample_db_def sample_play_def sample_home_def
  sample_song_def other_song_def sample_tree_def

lemmas run_defs =
  process_data_def process_song_file_def process_song_frame_def process_log_file_def
  process_log_frame_def insert_songplay_def execute_def fetchone_def commit_def Let_def
  song_data_def artist_data_def user_data_def songplay_data_def emitted_def

lemmas walk_defs =
  all_files_def os_walk_def glob_json_def listdir_def has_magic_def json_name_def ishidden_def

lemmas calendar_defs =
  time_data_def fromtimestamp_def utc_datetime_def civil_from_days_def days_to_yearsdays_def
  month_lengths_def is_leapyear_def iso_week_def iso_weekday_def dayofweek_def day_of_year_def
  to_datetime_def in_bounds_def is_play_def

lemma sample_song_files:
  "all_files (glob_magic (sample_env off second)) (cwd (sample_env off second))
      (tree (sample_env off second)) [''data'', ''song_data'']
   = [[''home'', ''etl'', ''data'', ''song_data'', ''b.json''],
      [''home'', ''etl'', ''data'', ''song_data'', ''A'', ''a.json''],
      [''home'', ''etl'', ''data'', ''song_data'', ''C'', ''c.json'']]"
  by (simp add: walk_defs sample_env_def sample_tree_def)


section \<open>The song record extractor\<close>



text \<open>
  C9. When the document of a song file holds more than one record, the run is the run
  on a document that holds the first record alone: at most the song insert and the
  artist upsert of that record are sent, and no call is made for any later record.
\<close>

theorem first_record_only:
  assumes rd: "read_song_json env filepath = Inr (r # rest)" and several: "rest \<noteq> []"
  shows "process_song_file env cur filepath
           = process_song_file (env\<lparr>read_song_json := (\<lambda>p. Inr [r])\<rparr>) cur filepath
    \<and> (\<exists>k \<le> 2. emitted cur (process_song_file env cur filepath) =
          take k [Execute song_table_insert [song_id r, title r, artist_id r, year r, duration r],
                  Execute artist_table_insert
                    [artist_id r, artist_name r, artist_location r, artist_latitude r,
                     artist_longitude r]])"
proof -
  have run: "process_song_file env cur filepath = process_song_frame env cur [r]"
    using rd by (simp add: process_song_file_def process_song_frame_def)
  have ex: "execute (env\<lparr>read_song_json := (\<lambda>p. Inr [r])\<rparr>) = execute env"
    by (intro ext) (simp add: execute_def Let_def split: sum.splits list.splits)
  have alone: "process_song_file (env\<lparr>read_song_json := (\<lambda>p. Inr [r])\<rparr>) cur filepath
      = process_song_frame env cur [r]"
    by (simp add: process_song_file_def process_song_frame_def ex)
  let ?a = "execute env song_table_insert (song_data r) cur"
  have "\<exists>k \<le> 2. emitted cur (process_song_frame env cur [r]) =
          take k [Execute song_table_insert (song_data r), Execute artist_table_insert (artist_data r)]"
  proof (cases "fst ?a")
    case None
    have "process_song_frame env cur [r] = execute env artist_table_insert (artist_data r) (snd ?a)"
      by (simp add: process_song_frame_def and_then_fst_None [OF None])
    then have "emitted cur (process_song_frame env cur [r]) =
          take 2 [Execute song_table_insert (song_data r), Execute artist_table_insert (artist_data r)]"
      by (simp add: emitted_def)
    then show ?thesis by (intro exI [of _ 2] conjI) simp_all
  next
    case (Some e)
    have "process_song_frame env cur [r] = ?a"
      by (simp add: process_song_frame_def and_then_fst_Some [OF Some])
    then have "emitted cur (process_song_frame env cur [r]) =
          take 1 [Execute song_table_insert (song_data r), Execute artist_table_insert (artist_data r)]"
      by (simp add: emitted_def)
    then show ?thesis by (intro exI [of _ 1] conjI) simp_all
  qed
  then show ?thesis unfolding alone unfolding run by (simp add: song_data_def artist_data_def)
qed

theorem first_record_only_witness:
  "read_song_json (sample_env 0 (Inr [other_song, sample_song]))
       [''home'', ''etl'', ''data'', ''song_data'', ''A'', ''a.json'']
     = Inr (other_song # [sample_song])
   \<and> [sample_song] \<noteq> []
   \<and> process_song_file (sample_env 0 (Inr [other_song, sample_song])) sample_cursor
        [''home'', ''etl'', ''data'', ''song_data'', ''A'', ''a.json'']
     = process_song_file
        ((sample_env 0 (Inr [other_song, sample_song]))\<lparr>read_song_json := (\<lambda>p. Inr [other_song])\<rparr>)
        sample_cursor [''home'', ''etl'', ''data'', ''song_data'', ''A'', ''a.json'']
   \<and> emitted sample_cursor
        (process_song_file (sample_env 0 (Inr [other_song, sample_song])) sample_cursor
           [''home'', ''etl'', ''data'', ''song_data'', ''A'', ''a.json'']) =
        [Execute song_table_insert [Str ''S2'', Str ''Song B'', Str ''AR2'', Num 0, Num 200],
         Execute artist_table_insert [Str ''AR2'', Str ''Artist Y'', Null, Null, Null]]"
proof -
  let ?E = "sample_env 0 (Inr [other_song, sample_song])"
  let ?p = "[''home'', ''etl'', ''data'', ''song_data'', ''A'', ''a.json'']"
  have rd: "read_song_json ?E ?p = Inr (other_song # [sample_song])"
    by (simp add: sample_env_def)
  have ne: "[sample_song] \<noteq> []" by simp
  have same: "process_song_file ?E sample_cursor ?p
      = process_song_file (?E\<lparr>read_song_json := (\<lambda>p. Inr [other_song])\<rparr>) sample_cursor ?p"
    using first_record_only [OF rd ne, of sample_cursor] by (rule conjunct1)
  have em: "emitted sample_cursor (process_song_file ?E sample_cursor ?p) =
        [Execute song_table_insert [Str ''S2'', Str ''Song B'', Str ''AR2'', Num 0, Num 200],
         Execute artist_table_insert [Str ''AR2'', Str ''Artist Y'', Null, Null, Null]]"
    by (simp add: run_defs and_then_def sample_defs)
  show ?thesis using rd ne same em by (intro conjI)
qed

section \<open>The event record extractor\<close>



text \<open>
  C6. Whatever the document and the gateway, the calls \<^verbatim>\<open>process_log_file\<close> makes for a
  file are: time inserts only, then user upserts only, then calls none of which is a
  time insert or a user upsert. Every time and user emission of the file therefore
  precedes every songplay insert of the file, also in a run that ends in an error.
\<close>

theorem dimensions_before_songplays:
  "\<exists>tm us sp. trace (snd (process_log_file env cur filepath)) = trace cur @ tm @ us @ sp
     \<and> list_all (is_exec time_table_insert) tm
     \<and> list_all (is_exec user_table_insert) us
     \<and> list_all (\<lambda>c. \<not> is_exec time_table_insert c \<and> \<not> is_exec user_table_insert c) sp"
proof -
  from process_log_file_order [of env cur filepath]
  obtain tm us sp where o: "trace (snd (process_log_file env cur filepath)) = trace cur @ tm @ us @ sp
     \<and> list_all (is_exec time_table_insert) tm
     \<and> list_all (is_exec user_table_insert) us
     \<and> list_all (\<lambda>c. \<not> is_exec time_table_insert c \<and> \<not> is_exec user_table_insert c
                    \<and> c \<noteq> Commit) sp"
    by (elim exE)
  then have "list_all (\<lambda>c. \<not> is_exec time_table_insert c \<and> \<not> is_exec user_table_insert c) sp"
    by (simp add: list_all_iff)
  with o have "trace (snd (process_log_file env cur filepath)) = trace cur @ tm @ us @ sp
     \<and> list_all (is_exec time_table_insert) tm
     \<and> list_all (is_exec user_table_insert) us
     \<and> list_all (\<lambda>c. \<not> is_exec time_table_insert c \<and> \<not> is_exec user_table_insert c) sp"
    by simp
  then show ?thesis by (intro exI)
qed

text \<open>
  C3. With the lookup statement as the spec describes it and a gateway that takes the
  statements, one pass of the songplay loop sends the lookup, one fetch and one
  songplay insert. When some persisted pair matches the event's song, artist and length
  exactly, the insert carries the song_id and artist_id of a matching pair; when no
  pair matches, both are null.
\<close>

theorem songplay_lookup:
  assumes acc: "accepts env" and sel: "gw_select env = song_select_rows"
  shows "\<exists>sid aid.
      emitted cur (insert_songplay env r cur) =
        [Execute song_select [song r, artist r, song_length r], Fetchone,
         Execute songplay_table_insert
           [Time (fromtimestamp (utcoffset env) (ts r)), userId r, level r, sid, aid,
            sessionId r, location r, userAgent r]]
    \<and> ((\<exists>s a. matching_pair (db cur) r s a) \<longrightarrow>
          (\<exists>s a. matching_pair (db cur) r s a \<and> sid = s_song_id s \<and> aid = a_artist_id a))
    \<and> ((\<forall>s a. \<not> matching_pair (db cur) r s a) \<longrightarrow> sid = Null \<and> aid = Null)"
proof -
  let ?rows = "song_select_rows (db cur) (song r) (artist r) (song_length r)"
  obtain d where d: "gw_run env (trace cur) song_select [song r, artist r, song_length r] (db cur) = Inr d"
    using acc unfolding accepts_def by metis
  have em: "emitted cur (insert_songplay env r cur) = songplay_calls env r (first_row ?rows)"
    using insert_songplay_accepted [OF d] sel by (simp add: emitted_def)
  have shape: "songplay_calls env r (first_row ?rows) =
        [Execute song_select [song r, artist r, song_length r], Fetchone,
         Execute songplay_table_insert
           [Time (fromtimestamp (utcoffset env) (ts r)), userId r, level r,
            fst (first_row ?rows), snd (first_row ?rows),
            sessionId r, location r, userAgent r]]"
    by (simp add: songplay_calls_def songplay_data_def)
  have found: "(\<exists>s a. matching_pair (db cur) r s a) \<longrightarrow>
          (\<exists>s a. matching_pair (db cur) r s a \<and> fst (first_row ?rows) = s_song_id s
                 \<and> snd (first_row ?rows) = a_artist_id a)"
  proof
    assume "\<exists>s a. matching_pair (db cur) r s a"
    then obtain s a where m: "matching_pair (db cur) r s a" by (elim exE)
    then have "(s_song_id s, a_artist_id a) \<in> set ?rows"
      unfolding set_song_select_rows by (intro exI conjI) simp_all
    then obtain x xs where rows: "?rows = x # xs" by (cases ?rows) simp_all
    then have "x \<in> set ?rows" by simp
    then obtain s' a' where m': "matching_pair (db cur) r s' a'" and x: "x = (s_song_id s', a_artist_id a')"
      unfolding set_song_select_rows by (elim exE conjE)
    have "matching_pair (db cur) r s' a' \<and> fst (first_row ?rows) = s_song_id s'
                 \<and> snd (first_row ?rows) = a_artist_id a'"
      using m' x rows by (simp add: first_row_def)
    then show "\<exists>s a. matching_pair (db cur) r s a \<and> fst (first_row ?rows) = s_song_id s
                 \<and> snd (first_row ?rows) = a_artist_id a"
      by (intro exI)
  qed
  have missed: "(\<forall>s a. \<not> matching_pair (db cur) r s a) \<longrightarrow>
           fst (first_row ?rows) = Null \<and> snd (first_row ?rows) = Null"
  proof
    assume none: "\<forall>s a. \<not> matching_pair (db cur) r s a"
    have "?rows = []"
    proof (cases ?rows)
      case Nil
      then show ?thesis .
    next
      case (Cons x xs)
      then have "x \<in> set ?rows" by simp
      then obtain s' a' where "matching_pair (db cur) r s' a'"
        unfolding set_song_select_rows by (elim exE conjE)
      then show ?thesis using none by simp
    qed
    then show "fst (first_row ?rows) = Null \<and> snd (first_row ?rows) = Null"
      by (simp add: first_row_def)
  qed
  show ?thesis
    unfolding em shape using found missed by (intro exI [of _ "fst (first_row ?rows)"] exI [of _ "snd (first_row ?rows)"] conjI refl)
qed

theorem songplay_lookup_witness:
  "accepts (sample_env 0 (Inl ParseError)) \<and> gw_select (sample_env 0 (Inl ParseError)) = song_select_rows
   \<and> (\<exists>s a. matching_pair (db sample_cursor) sample_play s a)
   \<and> (\<exists>sid aid s a.
        emitted sample_cursor (insert_songplay (sample_env 0 (Inl ParseError)) sample_play sample_cursor) =
          [Execute song_select [Str ''Song A'', Str ''Artist X'', Num (361 / 2)], Fetchone,
           Execute songplay_table_insert
             [Time (fromtimestamp (utcoffset (sample_env 0 (Inl ParseError))) 1000000000000), Str ''8'', Str ''free'',
              sid, aid, Num 139, Str ''Phoenix'', Str ''Mozilla'']]
        \<and> matching_pair (db sample_cursor) sample_play s a
        \<and> sid = s_song_id s \<and> aid = a_artist_id a)
   \<and> (\<forall>s a. \<not> matching_pair (db sample_cursor) (sample_play\<lparr>song := Str ''Song Z''\<rparr>) s a)
   \<and> (\<exists>sid aid.
        emitted sample_cursor
          (insert_songplay (sample_env 0 (Inl ParseError)) (sample_play\<lparr>song := Str ''Song Z''\<rparr>) sample_cursor) =
          [Execute song_select [Str ''Song Z'', Str ''Artist X'', Num (361 / 2)], Fetchone,
           Execute songplay_table_insert
             [Time (fromtimestamp (utcoffset (sample_env 0 (Inl ParseError))) 1000000000000), Str ''8'', Str ''free'',
              sid, aid, Num 139, Str ''Phoenix'', Str ''Mozilla'']]
        \<and> sid = Null \<and> aid = Null)"
proof -
  let ?E = "sample_env 0 (Inl ParseError)"
  let ?z = "sample_play\<lparr>song := Str ''Song Z''\<rparr>"
  have acc: "accepts ?E" by (simp add: accepts_def sample_env_def)
  have sel: "gw_select ?E = song_select_rows" by (simp add: sample_env_def)
  have "matching_pair (db sample_cursor) sample_play
          \<lparr> s_song_id = Str ''S1'', s_title = Str ''Song A'', s_artist_id = Str ''AR1'',
            s_year = Num 2000, s_duration = Num (361 / 2) \<rparr>
          \<lparr> a_artist_id = Str ''AR1'', a_name = Str ''Artist X'', a_location = Str ''NYC'',
            a_latitude = Num (407 / 10), a_longitude = Num (- 74) \<rparr>"
    by (simp add: matching_pair_def sample_cursor_def sample_db_def sample_play_def)
  then have ex: "\<exists>s a. matching_pair (db sample_cursor) sample_play s a" by (intro exI)
  have none: "\<forall>s a. \<not> matching_pair (db sample_cursor) ?z s a"
    by (auto simp: matching_pair_def sample_cursor_def sample_db_def sample_play_def)
  from songplay_lookup [OF acc sel, of sample_cursor sample_play]
  obtain sid aid where hit:
    "emitted sample_cursor (insert_songplay ?E sample_play sample_cursor) =
        [Execute song_select [song sample_play, artist sample_play, song_length sample_play], Fetchone,
         Execute songplay_table_insert
           [Time (fromtimestamp (utcoffset ?E) (ts sample_play)), userId sample_play,
            level sample_play, sid, aid, sessionId sample_play, location sample_play,
            userAgent sample_play]]"
    "(\<exists>s a. matching_pair (db sample_cursor) sample_play s a) \<longrightarrow>
       (\<exists>s a. matching_pair (db sample_cursor) sample_play s a \<and> sid = s_song_id s \<and> aid = a_artist_id a)"
    by (elim exE conjE)
  from mp [OF hit(2) ex] obtain s a where sa:
    "matching_pair (db sample_cursor) sample_play s a \<and> sid = s_song_id s \<and> aid = a_artist_id a"
    by (elim exE)
  have first: "\<exists>sid aid s a.
        emitted sample_cursor (insert_songplay ?E sample_play sample_cursor) =
          [Execute song_select [Str ''Song A'', Str ''Artist X'', Num (361 / 2)], Fetchone,
           Execute songplay_table_insert
             [Time (fromtimestamp (utcoffset ?E) 1000000000000), Str ''8'', Str ''free'',
              sid, aid, Num 139, Str ''Phoenix'', Str ''Mozilla'']]
        \<and> matching_pair (db sample_cursor) sample_play s a
        \<and> sid = s_song_id s \<and> aid = a_artist_id a"
    using hit(1) sa by (intro exI [of _ sid] exI [of _ aid] exI [of _ s] exI [of _ a])
      (simp add: sample_play_def)
  from songplay_lookup [OF acc sel, of sample_cursor ?z]
  obtain sid' aid' where miss:
    "emitted sample_cursor (insert_songplay ?E ?z sample_cursor) =
        [Execute song_select [song ?z, artist ?z, song_length ?z], Fetchone,
         Execute songplay_table_insert
           [Time (fromtimestamp (utcoffset ?E) (ts ?z)), userId ?z,
            level ?z, sid', aid', sessionId ?z, location ?z, userAgent ?z]]"
    "(\<forall>s a. \<not> matching_pair (db sample_cursor) ?z s a) \<longrightarrow> sid' = Null \<and> aid' = Null"
    by (elim exE conjE)
  have second: "\<exists>sid aid.
        emitted sample_cursor (insert_songplay ?E ?z sample_cursor) =
          [Execute song_select [Str ''Song Z'', Str ''Artist X'', Num (361 / 2)], Fetchone,
           Execute songplay_table_insert
             [Time (fromtimestamp (utcoffset ?E) 1000000000000), Str ''8'', Str ''free'',
              sid, aid, Num 139, Str ''Phoenix'', Str ''Mozilla'']]
        \<and> sid = Null \<and> aid = Null"
    using miss none by (intro exI [of _ sid'] exI [of _ aid']) (simp add: sample_play_def)
  show ?thesis using acc sel ex first none second by (intro conjI)
qed

text \<open>
  C10. When the lookup returns more than one row for a play event, the pass of the
  songplay loop makes one fetch, raises nothing, and sends exactly one songplay insert,
  which carries the two identifiers of the first row returned.
\<close>

theorem first_match_only:
  assumes acc: "accepts env"
    and rows: "gw_select env (db cur) (song r) (artist r) (song_length r) = m # others"
    and many: "others \<noteq> []"
  shows "fst (insert_songplay env r cur) = None
    \<and> emitted cur (insert_songplay env r cur) =
        [Execute song_select [song r, artist r, song_length r], Fetchone,
         Execute songplay_table_insert
           [Time (fromtimestamp (utcoffset env) (ts r)), userId r, level r, fst m, snd m,
            sessionId r, location r, userAgent r]]
    \<and> count_stmt songplay_table_insert (emitted cur (insert_songplay env r cur)) = 1"
proof -
  obtain d where d: "gw_run env (trace cur) song_select [song r, artist r, song_length r] (db cur) = Inr d"
    using acc unfolding accepts_def by metis
  have em: "emitted cur (insert_songplay env r cur) = songplay_calls env r m"
    using insert_songplay_accepted [OF d] rows by (simp add: emitted_def first_row_def)
  show ?thesis
    unfolding em using insert_songplay_accepts [OF acc, of r cur]
    by (simp add: songplay_calls_def songplay_data_def count_stmt_def)
qed

theorem first_match_only_witness:
  "accepts (sample_env 0 (Inl ParseError))
   \<and> gw_select (sample_env 0 (Inl ParseError)) (db sample_cursor) (song sample_play) (artist sample_play)
        (song_length sample_play) = (Str ''S1'', Str ''AR1'') # [(Str ''S7'', Str ''AR1'')]
   \<and> [(Str ''S7'', Str ''AR1'')] \<noteq> []
   \<and> fst (insert_songplay (sample_env 0 (Inl ParseError)) sample_play sample_cursor) = None
   \<and> emitted sample_cursor (insert_songplay (sample_env 0 (Inl ParseError)) sample_play sample_cursor) =
        [Execute song_select [Str ''Song A'', Str ''Artist X'', Num (361 / 2)], Fetchone,
         Execute songplay_table_insert
           [Time (fromtimestamp (utcoffset (sample_env 0 (Inl ParseError))) 1000000000000), Str ''8'', Str ''free'',
            Str ''S1'', Str ''AR1'', Num 139, Str ''Phoenix'', Str ''Mozilla'']]
   \<and> count_stmt songplay_table_insert
        (emitted sample_cursor (insert_songplay (sample_env 0 (Inl ParseError)) sample_play sample_cursor)) = 1"
proof -
  let ?E = "sample_env 0 (Inl ParseError)"
  have acc: "accepts ?E" by (simp add: accepts_def sample_env_def)
  have rows: "gw_select ?E (db sample_cursor) (song sample_play) (artist sample_play)
        (song_length sample_play) = (Str ''S1'', Str ''AR1'') # [(Str ''S7'', Str ''AR1'')]"
    by (simp add: sample_env_def song_select_rows_def sample_cursor_def sample_db_def
        sample_play_def)
  have many: "[(Str ''S7'', Str ''AR1'')] \<noteq> ([] :: (val \<times> val) list)" by simp
  show ?thesis
    using first_match_only [OF acc rows many] acc rows
    by (simp add: sample_play_def count_stmt_def)
qed

section \<open>The loader\<close>

text \<open>
  C7. For every dataset root and every extractor that only adds calls and never
  commits (both extractors of \<^verbatim>\<open>etl.py\<close> are such), a load that returns normally has
  made, for the discovered files in discovery order, the calls of the extractor on the
  file followed by one commit, and then gone on to the next file: there are as many
  committed units as files, and no unit holds a commit, so no two files share one.
\<close>

theorem one_commit_per_file:
  assumes ap: "appends_only func"
    and run: "process_data env cur folder_path func = (None, cur')"
  shows "trace cur' = trace cur @ concat (map (\<lambda>u. u @ [Commit])
            (file_units env func (all_files (glob_magic env) (cwd env) (tree env) folder_path) cur))
    \<and> length (file_units env func (all_files (glob_magic env) (cwd env) (tree env) folder_path) cur)
        = length (all_files (glob_magic env) (cwd env) (tree env) folder_path)
    \<and> list_all (list_all (\<lambda>c. c \<noteq> Commit))
        (file_units env func (all_files (glob_magic env) (cwd env) (tree env) folder_path) cur)"
proof -
  let ?files = "all_files (glob_magic env) (cwd env) (tree env) folder_path"
  have "process_files env func ?files cur = (None, cur')"
    using run by (simp add: process_data_def)
  then have "trace cur' = trace cur @ concat (map (\<lambda>u. u @ [Commit]) (file_units env func ?files cur))"
    by (rule process_files_trace [OF ap])
  then show ?thesis using file_units_no_commit [OF ap, of env ?files cur] by simp
qed

theorem one_commit_per_file_witness:
  "appends_only (process_song_file (sample_env 0 (Inr [other_song, sample_song])))
   \<and> fst (process_data (sample_env 0 (Inr [other_song, sample_song])) sample_cursor
            [''data'', ''song_data'']
            (process_song_file (sample_env 0 (Inr [other_song, sample_song])))) = None
   \<and> trace (snd (process_data (sample_env 0 (Inr [other_song, sample_song])) sample_cursor
            [''data'', ''song_data'']
            (process_song_file (sample_env 0 (Inr [other_song, sample_song]))))) =
       [Execute song_table_insert [Str ''S1'', Str ''Song A'', Str ''AR1'', Num 2000, Num (361 / 2)],
        Execute artist_table_insert
          [Str ''AR1'', Str ''Artist X'', Str ''NYC'', Num (407 / 10), Num (- 74)],
        Commit,
        Execute song_table_insert [Str ''S2'', Str ''Song B'', Str ''AR2'', Num 0, Num 200],
        Execute artist_table_insert [Str ''AR2'', Str ''Artist Y'', Null, Null, Null],
        Commit,
        Execute song_table_insert [Str ''S1'', Str ''Song A'', Str ''AR1'', Num 2000, Num (361 / 2)],
        Execute artist_table_insert
          [Str ''AR1'', Str ''Artist X'', Str ''NYC'', Num (407 / 10), Num (- 74)],
        Commit]"
proof -
  let ?E = "sample_env 0 (Inr [other_song, sample_song])"
  let ?run = "process_data ?E sample_cursor [''data'', ''song_data''] (process_song_file ?E)"
  have ap: "appends_only (process_song_file ?E)" by (rule song_file_appends)
  have ok: "fst ?run = None"
    unfolding process_data_def sample_song_files
    by (simp add: run_defs and_then_def sample_env_def)
  then have run: "?run = (None, snd ?run)" by (simp add: prod_eq_iff)
  have units: "file_units ?E (process_song_file ?E)
        [[''home'', ''etl'', ''data'', ''song_data'', ''b.json''],
         [''home'', ''etl'', ''data'', ''song_data'', ''A'', ''a.json''],
         [''home'', ''etl'', ''data'', ''song_data'', ''C'', ''c.json'']] sample_cursor =
       [[Execute song_table_insert [Str ''S1'', Str ''Song A'', Str ''AR1'', Num 2000, Num (361 / 2)],
         Execute artist_table_insert
           [Str ''AR1'', Str ''Artist X'', Str ''NYC'', Num (407 / 10), Num (- 74)]],
        [Execute song_table_insert [Str ''S2'', Str ''Song B'', Str ''AR2'', Num 0, Num 200],
         Execute artist_table_insert [Str ''AR2'', Str ''Artist Y'', Null, Null, Null]],
        [Execute song_table_insert [Str ''S1'', Str ''Song A'', Str ''AR1'', Num 2000, Num (361 / 2)],
         Execute artist_table_insert
           [Str ''AR1'', Str ''Artist X'', Str ''NYC'', Num (407 / 10), Num (- 74)]]]"
    by (simp add: run_defs and_then_def sample_defs)
  have "trace (snd ?run) = trace sample_cursor @ concat (map (\<lambda>u. u @ [Commit])
          (file_units ?E (process_song_file ?E)
             (all_files (glob_magic ?E) (cwd ?E) (tree ?E) [''data'', ''song_data'']) sample_cursor))"
    using one_commit_per_file [OF ap run] by (rule conjunct1)
  then have "trace (snd ?run) =
       [Execute song_table_insert [Str ''S1'', Str ''Song A'', Str ''AR1'', Num 2000, Num (361 / 2)],
        Execute artist_table_insert
          [Str ''AR1'', Str ''Artist X'', Str ''NYC'', Num (407 / 10), Num (- 74)],
        Commit,
        Execute song_table_insert [Str ''S2'', Str ''Song B'', Str ''AR2'', Num 0, Num 200],
        Execute artist_table_insert [Str ''AR2'', Str ''Artist Y'', Null, Null, Null],
        Commit,
        Execute song_table_insert [Str ''S1'', Str ''Song A'', Str ''AR1'', Num 2000, Num (361 / 2)],
        Execute artist_table_insert
          [Str ''AR1'', Str ''Artist X'', Str ''NYC'', Num (407 / 10), Num (- 74)],
        Commit]"
    unfolding sample_song_files units by (simp add: sample_cursor_def)
  then show ?thesis using ap ok by (intro conjI)
qed




section \<open>The start time of a songplay\<close>

text \<open>
  C1, at an input where it fails. The machine's local zone is four hours behind UTC
  and the log file holds one play event with ts = 1000000000000 and one other event.
  The time row is the UTC reading 2001-09-09 01:46:40 with hour 1, day 9, ISO week
  36, month 9, year 2001, ISO weekday 7, as the claim says. The songplay row's
  start_time is 2001-09-08 21:46:40: line 83 calls \<^verbatim>\<open>datetime.fromtimestamp\<close> without a
  zone, so the two start times of the same event differ.
\<close>

theorem songplay_start_time_is_local_time:
  "emitted sample_cursor
     (process_log_file (sample_env (- 14400) (Inl ParseError)) sample_cursor
        [''home'', ''etl'', ''data'', ''log_data'', ''e.json'']) =
     [Execute time_table_insert
        [Time \<lparr> dt_year = 2001, dt_month = 9, dt_day = 9, dt_hour = 1, dt_minute = 46,
                dt_second = 40, dt_microsecond = 0 \<rparr>,
         Num 1, Num 9, Num 36, Num 9, Num 2001, Num 7],
      Execute user_table_insert
        [Str ''8'', Str ''Kaylee'', Str ''Summers'', Str ''F'', Str ''free''],
      Execute song_select [Str ''Song A'', Str ''Artist X'', Num (361 / 2)],
      Fetchone,
      Execute songplay_table_insert
        [Time \<lparr> dt_year = 2001, dt_month = 9, dt_day = 8, dt_hour = 21, dt_minute = 46,
                dt_second = 40, dt_microsecond = 0 \<rparr>,
         Str ''8'', Str ''free'', Str ''S1'', Str ''AR1'', Num 139, Str ''Phoenix'',
         Str ''Mozilla'']]"
  by (simp add: run_defs and_then_def calendar_defs song_select_rows_def sample_defs)

text \<open>Where the local zone is UTC the two start times of an event are the same.\<close>

lemma start_times_agree_in_utc:
  "utcoffset env (ts r div 1000) = 0 \<Longrightarrow>
     hd (songplay_data env r songid artistid) = hd (time_data (ts r))"
  by (simp add: songplay_data_def time_data_def fromtimestamp_def Let_def)

section \<open>Discovery\<close>

text \<open>
  C4, at an input where it fails. Below \<^verbatim>\<open>data\<close> there are the file \<^verbatim>\<open>a.json\<close>, the
  directory \<^verbatim>\<open>old.json\<close> holding \<^verbatim>\<open>b.json\<close>, the file \<^verbatim>\<open>.c.json\<close> and the file
  \<^verbatim>\<open>notes.txt\<close>. The list built by lines 106 to 110 holds the directory \<^verbatim>\<open>old.json\<close>,
  which is not a file, and leaves out the file \<^verbatim>\<open>.c.json\<close>.
\<close>

theorem directory_named_json_is_listed:
  "all_files (\<lambda>p. []) [''home'', ''etl''] odd_tree [''data''] =
     [[''home'', ''etl'', ''data'', ''a.json''],
      [''home'', ''etl'', ''data'', ''old.json''],
      [''home'', ''etl'', ''data'', ''old.json'', ''b.json'']]
   \<and> resolve odd_tree [''data'', ''old.json''] = Some (Dir [(''b.json'', File)])
   \<and> resolve odd_tree [''data'', ''.c.json''] = Some File"
  by (simp add: walk_defs odd_tree_def)

end
